theory Spec2Isabelle
  imports Main "HOL-Library.Word"
begin

section \<open>Native memory, the engine and the managed caller\<close>

text \<open>
  The bridge of \<^verbatim>\<open>olm_pk.cpp\<close> owns native memory by hand. The model keeps a store of
  live blocks indexed by address (address 0 is the null pointer), hands out fresh
  addresses, and writes every allocation, release and engine call into a trace. A release
  records the contents the block had at that moment, so "zeroed, then freed" is a fact
  about one trace entry.
\<close>

type_synonym addr = nat
type_synonym byte = "8 word"

text \<open>A block is a byte buffer or one of the two opaque engine contexts.\<close>

datatype 'c block = Bytes "byte list" | EncCtx 'c | DecCtx 'c

text \<open>
  \<^verbatim>\<open>errorMessage\<close> is either one of the string literals of the bridge or the string that
  the engine's last-error query returned. It is thrown as \<^verbatim>\<open>java/lang/Exception\<close>.
\<close>

datatype error = Literal string | EngineMsg string

datatype 'c event =
    EvMalloc addr nat
  | EvRandom addr nat
  | EvJniGet addr
  | EvMemset addr nat
  | EvFree addr "'c block"
  | EvEngine string "addr list"
  | EvFault addr

text \<open>
  The world outside the function body: the native store, the allocator's script
  (\<open>True\<close> at the head makes the next native allocation fail; the empty script never
  fails), the byte that fresh memory happens to hold, what the secure random provider can
  still deliver, whether class and field lookups of the managed runtime succeed, and the
  trace.
\<close>

record 'c world =
  heap :: "addr \<Rightarrow> 'c block option"
  nxt :: addr
  alloc_fail :: "bool list"
  junk :: byte
  entropy :: "byte list"
  class_ok :: bool
  field_ok :: "string \<Rightarrow> bool"
  trace :: "'c event list"

text \<open>
  The cryptographic engine (\<^verbatim>\<open>olm/pk.h\<close>) is an external collaborator: every operation
  the bridge calls is a parameter. An operation that can return \<^verbatim>\<open>olm_error()\<close> returns
  \<open>None\<close> (or \<open>False\<close>) there, together with the context as the engine left it. Output
  buffers are returned as the bytes the engine wrote. \<open>olm_pk_decrypt\<close> returns what it
  left in the ciphertext buffer it was given (it decodes in place) and, on success, the
  length it reports with the bytes it left in the plaintext buffer.
\<close>

record 'c engine =
  olm_pk_key_length :: nat
  olm_pk_encryption_size :: nat
  olm_pk_encryption :: 'c
  olm_clear_pk_encryption :: "'c \<Rightarrow> 'c"
  olm_pk_encryption_last_error :: "'c \<Rightarrow> string"
  olm_pk_encryption_set_recipient_key :: "'c \<Rightarrow> byte list \<Rightarrow> 'c \<times> bool"
  olm_pk_ciphertext_length :: "'c \<Rightarrow> nat \<Rightarrow> nat"
  olm_pk_mac_length :: "'c \<Rightarrow> nat"
  olm_pk_encrypt_random_length :: "'c \<Rightarrow> nat"
  olm_pk_encrypt ::
    "'c \<Rightarrow> byte list \<Rightarrow> nat \<Rightarrow> nat \<Rightarrow> nat \<Rightarrow> byte list
       \<Rightarrow> 'c \<times> (byte list \<times> byte list \<times> byte list) option"
  olm_pk_decryption_size :: nat
  olm_pk_decryption :: 'c
  olm_clear_pk_decryption :: "'c \<Rightarrow> 'c"
  olm_pk_decryption_last_error :: "'c \<Rightarrow> string"
  olm_pk_generate_key_random_length :: nat
  olm_pk_generate_key :: "'c \<Rightarrow> nat \<Rightarrow> byte list \<Rightarrow> 'c \<times> byte list option"
  olm_pk_max_plaintext_length :: "'c \<Rightarrow> nat \<Rightarrow> nat"
  olm_pk_decrypt ::
    "'c \<Rightarrow> byte list \<Rightarrow> byte list \<Rightarrow> byte list \<Rightarrow> nat
       \<Rightarrow> 'c \<times> byte list \<times> (nat \<times> byte list) option"

text \<open>What a bridge function hands back: its return value and the pending exception.\<close>

record 'r outcome =
  ret :: 'r
  exn :: "error option"

text \<open>
  The managed message object \<^verbatim>\<open>OlmPkMessage\<close>. A managed string is kept as the bytes of
  its modified UTF-8 form (no zero byte); \<open>None\<close> is a null reference.
\<close>

record message =
  mCipherText :: "byte list option"
  mMac :: "byte list option"
  mEphemeralKey :: "byte list option"

subsection \<open>Memory primitives\<close>

definition log :: "'c event \<Rightarrow> 'c world \<Rightarrow> 'c world" where
  "log e s = s\<lparr>trace := trace s @ [e]\<rparr>"

definition next_fails :: "bool list \<Rightarrow> bool" where
  "next_fails script = (case script of [] \<Rightarrow> False | b # _ \<Rightarrow> b)"

definition alloc :: "'c block \<Rightarrow> 'c world \<Rightarrow> addr option \<times> 'c world" where
  "alloc b s =
     (if next_fails (alloc_fail s)
      then (None, s\<lparr>alloc_fail := tl (alloc_fail s)\<rparr>)
      else (Some (nxt s),
            s\<lparr>heap := (heap s)(nxt s \<mapsto> b), nxt := Suc (nxt s),
              alloc_fail := tl (alloc_fail s)\<rparr>))"

text \<open>Memory that was allocated and not written yet.\<close>

definition uninitialised :: "nat \<Rightarrow> byte \<Rightarrow> byte list" where
  "uninitialised n j = replicate n j"

definition malloc :: "nat \<Rightarrow> 'c world \<Rightarrow> addr option \<times> 'c world" where
  "malloc n s =
     (case alloc (Bytes (uninitialised n (junk s))) s of
        (None, s1) \<Rightarrow> (None, s1)
      | (Some a, s1) \<Rightarrow> (Some a, log (EvMalloc a n) s1))"

text \<open>\<^verbatim>\<open>free\<close> of an address that holds no live block is a memory fault (a double free).\<close>

definition free :: "addr \<Rightarrow> 'c world \<Rightarrow> 'c world" where
  "free a s =
     (case heap s a of
        None \<Rightarrow> log (EvFault a) s
      | Some b \<Rightarrow> log (EvFree a b) (s\<lparr>heap := (heap s)(a := None)\<rparr>))"

definition bytes_at :: "'c world \<Rightarrow> addr \<Rightarrow> byte list" where
  "bytes_at s a = (case heap s a of Some (Bytes bs) \<Rightarrow> bs | _ \<Rightarrow> [])"

text \<open>
  Reading \<open>n\<close> bytes from the start of a block, as \<^verbatim>\<open>SetByteArrayRegion\<close> does with a
  native buffer. Nothing stops the read at the end of the block; what lies beyond is
  memory the model knows nothing about, and it is given the value of unwritten memory.
\<close>

definition read_region :: "'c world \<Rightarrow> addr \<Rightarrow> nat \<Rightarrow> byte list" where
  "read_region s a n =
     take n (bytes_at s a @ replicate (n - length (bytes_at s a)) (junk s))"

definition memset :: "addr \<Rightarrow> nat \<Rightarrow> 'c world \<Rightarrow> 'c world" where
  "memset a n s =
     (case heap s a of
        Some (Bytes bs) \<Rightarrow>
          if n \<le> length bs
          then log (EvMemset a n) (s\<lparr>heap := (heap s)(a \<mapsto> Bytes (replicate n 0 @ drop n bs))\<rparr>)
          else log (EvFault a) s
      | _ \<Rightarrow> log (EvFault a) s)"

text \<open>Writing \<open>new\<close> at the start of a buffer that holds \<open>old\<close>; the buffer keeps its size.\<close>

definition overwrite :: "byte list \<Rightarrow> byte list \<Rightarrow> byte list" where
  "overwrite old new = take (length old) (new @ drop (length new) old)"

definition store :: "addr \<Rightarrow> byte list \<Rightarrow> 'c world \<Rightarrow> 'c world" where
  "store a new s =
     (case heap s a of
        Some (Bytes old) \<Rightarrow> s\<lparr>heap := (heap s)(a \<mapsto> Bytes (overwrite old new))\<rparr>
      | _ \<Rightarrow> log (EvFault a) s)"

definition poke :: "addr \<Rightarrow> nat \<Rightarrow> byte \<Rightarrow> 'c world \<Rightarrow> 'c world" where
  "poke a i v s =
     (case heap s a of
        Some (Bytes bs) \<Rightarrow>
          if i < length bs then s\<lparr>heap := (heap s)(a \<mapsto> Bytes (bs[i := v]))\<rparr>
          else log (EvFault a) s
      | _ \<Rightarrow> log (EvFault a) s)"

text \<open>\<^verbatim>\<open>if (p) { free(p); }\<close>\<close>

definition free_if :: "addr option \<Rightarrow> 'c world \<Rightarrow> 'c world" where
  "free_if p s = (case p of None \<Rightarrow> s | Some a \<Rightarrow> free a s)"

text \<open>
  A pointer as the \<^verbatim>\<open>jlong\<close> the caller keeps. Modelled from the spec:
  \<^verbatim>\<open>getPkEncryptionInstanceId\<close> and \<^verbatim>\<open>getPkDecryptionInstanceId\<close> (declared in
  \<^verbatim>\<open>olm_jni.h\<close>, not part of the two files) hand the bridge the handle that the caller
  holds; every bridge function below takes that handle as its argument, 0 for null.
\<close>

definition handle_of :: "addr option \<Rightarrow> addr" where
  "handle_of p = (case p of None \<Rightarrow> 0 | Some a \<Rightarrow> a)"

subsection \<open>What the managed runtime hands out\<close>

text \<open>
  \<^verbatim>\<open>GetByteArrayElements\<close> and \<^verbatim>\<open>GetStringUTFChars\<close> give a native view of a managed
  array or string (for a string: its bytes and a terminating zero) or null when the view
  cannot be allocated; the matching release gives the view back. The bridge releases
  byte-array views with \<^verbatim>\<open>JNI_ABORT\<close>, so nothing is copied back.
\<close>

definition GetByteArrayElements :: "byte list \<Rightarrow> 'c world \<Rightarrow> addr option \<times> 'c world" where
  "GetByteArrayElements arr s =
     (case alloc (Bytes arr) s of
        (None, s1) \<Rightarrow> (None, s1)
      | (Some a, s1) \<Rightarrow> (Some a, log (EvJniGet a) s1))"

definition GetStringUTFChars :: "byte list \<Rightarrow> 'c world \<Rightarrow> addr option \<times> 'c world" where
  "GetStringUTFChars str s = GetByteArrayElements (str @ [0]) s"

definition release_view :: "addr option \<Rightarrow> 'c world \<Rightarrow> 'c world" where
  "release_view p s = (case p of None \<Rightarrow> s | Some a \<Rightarrow> free a s)"

text \<open>
  \<^verbatim>\<open>NewStringUTF\<close> reads a C string: the bytes before the first zero. The managed
  results of a call (\<^verbatim>\<open>NewByteArray\<close>, \<^verbatim>\<open>NewStringUTF\<close>) are taken to be created; the
  source does not check them.
\<close>

definition NewStringUTF :: "byte list \<Rightarrow> byte list" where
  "NewStringUTF bs = takeWhile (\<lambda>b. b \<noteq> 0) bs"

text \<open>
  Modelled from the spec: \<^verbatim>\<open>setRandomInBuffer\<close> (declared in \<^verbatim>\<open>olm_jni.h\<close>, not part of
  the two files). It allocates a buffer of exactly the required length and fills it from
  the secure random provider; it answers false when the allocation fails (the pointer
  stays null) or when the provider cannot deliver (the buffer stays allocated and is the
  caller's to free).
\<close>

definition setRandomInBuffer :: "nat \<Rightarrow> 'c world \<Rightarrow> bool \<times> addr option \<times> 'c world" where
  "setRandomInBuffer n s =
     (case alloc (Bytes (uninitialised n (junk s))) s of
        (None, s1) \<Rightarrow> (False, None, s1)
      | (Some a, s1) \<Rightarrow>
          (let s2 = log (EvRandom a n) s1 in
           if length (entropy s2) < n then (False, Some a, s2)
           else (True, Some a,
                 s2\<lparr>heap := (heap s2)(a \<mapsto> Bytes (take n (entropy s2))),
                    entropy := drop n (entropy s2)\<rparr>)))"

text \<open>The cleanup every caller of \<^verbatim>\<open>setRandomInBuffer\<close> runs: zero, then free.\<close>

definition wipe_random :: "addr option \<Rightarrow> nat \<Rightarrow> 'c world \<Rightarrow> 'c world" where
  "wipe_random randomBuffPtr randomLength s =
     (case randomBuffPtr of
        None \<Rightarrow> s
      | Some r \<Rightarrow> free r (memset r randomLength s))"

section \<open>The encryption bridge\<close>

text \<open>\<^verbatim>\<open>olm_clear_pk_encryption(p); free(p);\<close>\<close>

definition clear_free_encryption :: "'c engine \<Rightarrow> addr \<Rightarrow> 'c world \<Rightarrow> 'c world" where
  "clear_free_encryption E p s =
     (case heap s p of
        Some (EncCtx e) \<Rightarrow>
          free p (log (EvEngine ''olm_clear_pk_encryption'' [p])
                    (s\<lparr>heap := (heap s)(p \<mapsto> EncCtx (olm_clear_pk_encryption E e))\<rparr>))
      | _ \<Rightarrow> free p (log (EvFault p) s))"



definition releasePkEncryptionJni :: "'c engine \<Rightarrow> addr \<Rightarrow> 'c world \<Rightarrow> 'c world" where
  "releasePkEncryptionJni E encryptionPtr s =
     (if encryptionPtr = 0 then s else clear_free_encryption E encryptionPtr s)"

text \<open>The last branch of \<^verbatim>\<open>setRecipientKeyJni\<close>, with the view of the key in hand.\<close>

definition setRecipientKey_call ::
  "'c engine \<Rightarrow> addr \<Rightarrow> addr \<Rightarrow> nat \<Rightarrow> 'c world \<Rightarrow> error option \<times> 'c world" where
  "setRecipientKey_call E encryptionPtr keyPtr keyLength s =
     (case heap s encryptionPtr of
        Some (EncCtx e) \<Rightarrow>
          (case olm_pk_encryption_set_recipient_key E e (take keyLength (bytes_at s keyPtr)) of
             (e', ok) \<Rightarrow>
               (if ok then None else Some (EngineMsg (olm_pk_encryption_last_error E e')),
                log (EvEngine ''olm_pk_encryption_set_recipient_key'' [encryptionPtr, keyPtr])
                  (s\<lparr>heap := (heap s)(encryptionPtr \<mapsto> EncCtx e')\<rparr>)))
      | _ \<Rightarrow> (None, log (EvFault encryptionPtr) s))"

definition setRecipientKeyJni ::
  "'c engine \<Rightarrow> addr \<Rightarrow> byte list option \<Rightarrow> 'c world \<Rightarrow> unit outcome \<times> 'c world" where
  "setRecipientKeyJni E encryptionPtr aKeyBuffer s =
     (if encryptionPtr = 0 then (\<lparr>ret = (), exn = None\<rparr>, s)
      else
        (case aKeyBuffer of
           None \<Rightarrow> (\<lparr>ret = (), exn = Some (Literal ''invalid key'')\<rparr>, s)
         | Some key \<Rightarrow>
             (case GetByteArrayElements key s of
                (None, s1) \<Rightarrow> (\<lparr>ret = (), exn = Some (Literal ''key JNI allocation OOM'')\<rparr>, s1)
              | (Some keyPtr, s1) \<Rightarrow>
                  (case setRecipientKey_call E encryptionPtr keyPtr (length key) s1 of
                     (errorMessage, s2) \<Rightarrow>
                       (\<lparr>ret = (), exn = errorMessage\<rparr>, release_view (Some keyPtr) s2)))))"

text \<open>
  The cleanup at the end of the last branch of \<^verbatim>\<open>encryptJni\<close>: the random buffer is
  zeroed and freed, then the three scratch buffers are freed, each when it is not null.
\<close>

definition encrypt_cleanup ::
  "nat \<Rightarrow> addr option \<Rightarrow> addr option \<Rightarrow> addr option \<Rightarrow> addr option \<Rightarrow> 'c world \<Rightarrow> 'c world" where
  "encrypt_cleanup randomLength randomBuffPtr ephemeralPtr macPtr ciphertextPtr s =
     free_if ciphertextPtr (free_if macPtr (free_if ephemeralPtr
       (wipe_random randomBuffPtr randomLength s)))"

text \<open>The engine call of \<^verbatim>\<open>encryptJni\<close> and the marshalling of its three outputs.\<close>

definition encrypt_call ::
  "'c engine \<Rightarrow> addr \<Rightarrow> 'c \<Rightarrow> addr \<Rightarrow> nat \<Rightarrow> addr \<Rightarrow> nat \<Rightarrow> addr \<Rightarrow> nat \<Rightarrow> addr \<Rightarrow> nat \<Rightarrow> addr \<Rightarrow> nat
     \<Rightarrow> message \<Rightarrow> 'c world \<Rightarrow> byte list option \<times> message \<times> error option \<times> 'c world" where
  "encrypt_call E encryptionPtr e plaintextPtr plaintextLength ciphertextPtr ciphertextLength
       macPtr macLength ephemeralPtr ephemeralLength randomBuffPtr randomLength msg s =
     (let s1 = poke ephemeralPtr ephemeralLength 0 (poke macPtr macLength 0 s) in
      case olm_pk_encrypt E e (take plaintextLength (bytes_at s1 plaintextPtr))
             ciphertextLength macLength ephemeralLength
             (take randomLength (bytes_at s1 randomBuffPtr)) of
        (e', r) \<Rightarrow>
          (let s2 = log (EvEngine ''olm_pk_encrypt''
                           [encryptionPtr, plaintextPtr, ciphertextPtr, macPtr, ephemeralPtr,
                            randomBuffPtr])
                      (s1\<lparr>heap := (heap s1)(encryptionPtr \<mapsto> EncCtx e')\<rparr>)
           in case r of
                None \<Rightarrow>
                  (None, msg, Some (EngineMsg (olm_pk_encryption_last_error E e')), s2)
              | Some (ct, mac, eph) \<Rightarrow>
                  (let s3 = store ephemeralPtr (take ephemeralLength eph)
                              (store macPtr (take macLength mac)
                                 (store ciphertextPtr (take ciphertextLength ct) s2))
                   in (Some (take ciphertextLength (bytes_at s3 ciphertextPtr)),
                       msg\<lparr>mMac := Some (NewStringUTF (bytes_at s3 macPtr)),
                           mEphemeralKey := Some (NewStringUTF (bytes_at s3 ephemeralPtr))\<rparr>,
                       None, s3))))"

text \<open>The last branch of \<^verbatim>\<open>encryptJni\<close>: sizes, the four allocations, the call, the cleanup.\<close>

definition encrypt_body ::
  "'c engine \<Rightarrow> addr \<Rightarrow> addr \<Rightarrow> nat \<Rightarrow> message \<Rightarrow> 'c world
     \<Rightarrow> byte list option \<times> message \<times> error option \<times> 'c world" where
  "encrypt_body E encryptionPtr plaintextPtr plaintextLength msg s =
     (case heap s encryptionPtr of
        Some (EncCtx e) \<Rightarrow>
          (let ciphertextLength = olm_pk_ciphertext_length E e plaintextLength;
               macLength = olm_pk_mac_length E e;
               ephemeralLength = olm_pk_key_length E;
               randomLength = olm_pk_encrypt_random_length E e
           in
           case malloc ciphertextLength s of
             (None, s1) \<Rightarrow>
               (None, msg, Some (Literal ''ciphertext JNI allocation OOM''),
                encrypt_cleanup randomLength None None None None s1)
           | (Some ciphertextPtr, s1) \<Rightarrow>
               (case malloc (macLength + 1) s1 of
                  (None, s2) \<Rightarrow>
                    (None, msg, Some (Literal ''MAC JNI allocation OOM''),
                     encrypt_cleanup randomLength None None None (Some ciphertextPtr) s2)
                | (Some macPtr, s2) \<Rightarrow>
                    (case malloc (ephemeralLength + 1) s2 of
                       (None, s3) \<Rightarrow>
                         (None, msg, Some (Literal ''ephemeral JNI allocation OOM''),
                          encrypt_cleanup randomLength None None (Some macPtr)
                            (Some ciphertextPtr) s3)
                     | (Some ephemeralPtr, s3) \<Rightarrow>
                         (case setRandomInBuffer randomLength s3 of
                            (ok, randomBuffPtr, s4) \<Rightarrow>
                              if \<not> ok
                              then (None, msg, Some (Literal ''random buffer init''),
                                    encrypt_cleanup randomLength randomBuffPtr
                                      (Some ephemeralPtr) (Some macPtr) (Some ciphertextPtr) s4)
                              else
                                (case encrypt_call E encryptionPtr e plaintextPtr plaintextLength
                                        ciphertextPtr ciphertextLength macPtr macLength
                                        ephemeralPtr ephemeralLength
                                        (handle_of randomBuffPtr) randomLength msg s4 of
                                   (r, msg', errorMessage, s5) \<Rightarrow>
                                     (r, msg', errorMessage,
                                      encrypt_cleanup randomLength randomBuffPtr
                                        (Some ephemeralPtr) (Some macPtr)
                                        (Some ciphertextPtr) s5))))))
      | _ \<Rightarrow> (None, msg, None, log (EvFault encryptionPtr) s))"

text \<open>
  \<^verbatim>\<open>encryptJni\<close>. The branch for a null handle logs and sets no error message. The
  message object is not checked for null before its class is asked for; the model marks
  that as a fault.
\<close>

definition encrypt_lookup ::
  "'c engine \<Rightarrow> addr \<Rightarrow> addr \<Rightarrow> nat \<Rightarrow> message option \<Rightarrow> 'c world
     \<Rightarrow> byte list option \<times> message option \<times> error option \<times> 'c world" where
  "encrypt_lookup E encryptionPtr plaintextPtr plaintextLength aEncryptedMsg s =
     (case aEncryptedMsg of
        None \<Rightarrow> (None, None, None, log (EvFault 0) s)
      | Some msg \<Rightarrow>
          if \<not> class_ok s
          then (None, Some msg, Some (Literal ''unable to get crypted message class''), s)
          else if \<not> field_ok s ''mMac''
          then (None, Some msg, Some (Literal ''unable to get MAC field''), s)
          else if \<not> field_ok s ''mEphemeralKey''
          then (None, Some msg, Some (Literal ''unable to get ephemeral key field''), s)
          else
            (case encrypt_body E encryptionPtr plaintextPtr plaintextLength msg s of
               (r, msg', errorMessage, s1) \<Rightarrow> (r, Some msg', errorMessage, s1)))"

definition encryptJni ::
  "'c engine \<Rightarrow> addr \<Rightarrow> byte list option \<Rightarrow> message option \<Rightarrow> 'c world
     \<Rightarrow> byte list option outcome \<times> message option \<times> 'c world" where
  "encryptJni E encryptionPtr aPlaintextBuffer aEncryptedMsg s =
     (if encryptionPtr = 0 then (\<lparr>ret = None, exn = None\<rparr>, aEncryptedMsg, s)
      else
        (case aPlaintextBuffer of
           None \<Rightarrow>
             (\<lparr>ret = None, exn = Some (Literal ''invalid clear message'')\<rparr>, aEncryptedMsg, s)
         | Some plaintext \<Rightarrow>
             (case GetByteArrayElements plaintext s of
                (None, s1) \<Rightarrow>
                  (\<lparr>ret = None, exn = Some (Literal ''plaintext JNI allocation OOM'')\<rparr>,
                   aEncryptedMsg, s1)
              | (Some plaintextPtr, s1) \<Rightarrow>
                  (case encrypt_lookup E encryptionPtr plaintextPtr (length plaintext)
                          aEncryptedMsg s1 of
                     (encryptedMsgRet, msg', errorMessage, s2) \<Rightarrow>
                       (\<lparr>ret = encryptedMsgRet, exn = errorMessage\<rparr>, msg',
                        release_view (Some plaintextPtr) s2)))))"

section \<open>The decryption bridge\<close>

text \<open>\<^verbatim>\<open>olm_clear_pk_decryption(p); free(p);\<close> as release and key generation run it.\<close>

definition clear_free_decryption :: "'c engine \<Rightarrow> addr \<Rightarrow> 'c world \<Rightarrow> 'c world" where
  "clear_free_decryption E p s =
     (case heap s p of
        Some (DecCtx d) \<Rightarrow>
          free p (log (EvEngine ''olm_clear_pk_decryption'' [p])
                    (s\<lparr>heap := (heap s)(p \<mapsto> DecCtx (olm_clear_pk_decryption E d))\<rparr>))
      | _ \<Rightarrow> free p (log (EvFault p) s))"



definition releasePkDecryptionJni :: "'c engine \<Rightarrow> addr \<Rightarrow> 'c world \<Rightarrow> 'c world" where
  "releasePkDecryptionJni E decryptionPtr s =
     (if decryptionPtr = 0 then s else clear_free_decryption E decryptionPtr s)"

text \<open>
  The tail of \<^verbatim>\<open>generateKeyJni\<close>: wipe the random buffer; when an error message is set,
  tear the context down and throw. The public-key buffer is not mentioned there.
\<close>

definition generateKey_finish ::
  "'c engine \<Rightarrow> addr \<Rightarrow> nat \<Rightarrow> addr option \<Rightarrow> byte list option \<Rightarrow> error option \<Rightarrow> 'c world
     \<Rightarrow> byte list option outcome \<times> 'c world" where
  "generateKey_finish E decryptionPtr randomLength randomBuffPtr publicKeyRet errorMessage s =
     (let s1 = wipe_random randomBuffPtr randomLength s in
      case errorMessage of
        None \<Rightarrow> (\<lparr>ret = publicKeyRet, exn = None\<rparr>, s1)
      | Some m \<Rightarrow>
          (\<lparr>ret = publicKeyRet, exn = Some m\<rparr>,
           (if decryptionPtr = 0 then s1 else clear_free_decryption E decryptionPtr s1)))"

text \<open>The last branch of \<^verbatim>\<open>generateKeyJni\<close>: the engine call and what follows it.\<close>

definition generateKey_call ::
  "'c engine \<Rightarrow> addr \<Rightarrow> nat \<Rightarrow> nat \<Rightarrow> addr option \<Rightarrow> addr \<Rightarrow> 'c world
     \<Rightarrow> byte list option outcome \<times> 'c world" where
  "generateKey_call E decryptionPtr randomLength publicKeyLength randomBuffPtr publicKeyPtr s =
     (case heap s decryptionPtr of
        Some (DecCtx d) \<Rightarrow>
          (case olm_pk_generate_key E d publicKeyLength
                  (take randomLength (bytes_at s (handle_of randomBuffPtr))) of
             (d', r) \<Rightarrow>
               (let s1 = log (EvEngine ''olm_pk_generate_key''
                                [decryptionPtr, publicKeyPtr, handle_of randomBuffPtr])
                           (s\<lparr>heap := (heap s)(decryptionPtr \<mapsto> DecCtx d')\<rparr>)
                in case r of
                     None \<Rightarrow>
                       generateKey_finish E decryptionPtr randomLength randomBuffPtr None
                         (Some (EngineMsg (olm_pk_decryption_last_error E d'))) s1
                   | Some key \<Rightarrow>
                       (let s2 = store publicKeyPtr key s1 in
                        generateKey_finish E decryptionPtr randomLength randomBuffPtr
                          (Some (take publicKeyLength (bytes_at s2 publicKeyPtr))) None s2)))
      | _ \<Rightarrow> (\<lparr>ret = None, exn = None\<rparr>, log (EvFault decryptionPtr) s))"

definition generateKeyJni ::
  "'c engine \<Rightarrow> addr \<Rightarrow> 'c world \<Rightarrow> byte list option outcome \<times> 'c world" where
  "generateKeyJni E decryptionPtr s =
     (let randomLength = olm_pk_generate_key_random_length E;
          publicKeyLength = olm_pk_key_length E
      in
      if decryptionPtr = 0
      then generateKey_finish E decryptionPtr randomLength None None
             (Some (Literal ''invalid Decryption ptr=NULL'')) s
      else
        (case setRandomInBuffer randomLength s of
           (ok, randomBuffPtr, s1) \<Rightarrow>
             if \<not> ok
             then generateKey_finish E decryptionPtr randomLength randomBuffPtr None
                    (Some (Literal ''random buffer init'')) s1
             else
               (case malloc publicKeyLength s1 of
                  (None, s2) \<Rightarrow>
                    generateKey_finish E decryptionPtr randomLength randomBuffPtr None
                      (Some (Literal ''public key allocation OOM'')) s2
                | (Some publicKeyPtr, s2) \<Rightarrow>
                    generateKey_call E decryptionPtr randomLength publicKeyLength
                      randomBuffPtr publicKeyPtr s2)))"

text \<open>
  The last branch of \<^verbatim>\<open>decryptJni\<close>, entered with the three text views in hand. The
  branch for a failed scratch allocation logs and sets no error message. The engine
  reports a length and leaves bytes in the plaintext buffer; the bridge builds an array
  of the reported length from the start of that buffer, without comparing the length
  with the buffer's size. A report beyond the buffer is a read past its end: the array
  is built all the same, and the trace gets a fault.
\<close>

definition decrypt_call ::
  "'c engine \<Rightarrow> addr \<Rightarrow> 'c \<Rightarrow> addr \<Rightarrow> nat \<Rightarrow> addr \<Rightarrow> nat \<Rightarrow> addr \<Rightarrow> nat \<Rightarrow> addr \<Rightarrow> nat \<Rightarrow> addr
     \<Rightarrow> 'c world \<Rightarrow> byte list option \<times> error option \<times> 'c world" where
  "decrypt_call E decryptionPtr d ciphertextPtr ciphertextLength macPtr macLength
       ephemeralKeyPtr ephemeralLength plaintextPtr maxPlaintextLength tempCiphertextPtr s =
     (let s1 = store tempCiphertextPtr (take ciphertextLength (bytes_at s ciphertextPtr)) s in
      case olm_pk_decrypt E d
             (take ephemeralLength (bytes_at s1 ephemeralKeyPtr))
             (take macLength (bytes_at s1 macPtr))
             (take ciphertextLength (bytes_at s1 tempCiphertextPtr))
             maxPlaintextLength of
        (d', clobbered, r) \<Rightarrow>
          (let s2 = log (EvEngine ''olm_pk_decrypt''
                           [decryptionPtr, ephemeralKeyPtr, macPtr, tempCiphertextPtr, plaintextPtr])
                      (store tempCiphertextPtr clobbered
                         (s1\<lparr>heap := (heap s1)(decryptionPtr \<mapsto> DecCtx d')\<rparr>))
           in case r of
                None \<Rightarrow> (None, Some (EngineMsg (olm_pk_decryption_last_error E d')), s2)
              | Some (plaintextLength, written) \<Rightarrow>
                  (let s3 = store plaintextPtr written s2 in
                   (Some (read_region s3 plaintextPtr plaintextLength), None,
                    if plaintextLength \<le> length (bytes_at s3 plaintextPtr) then s3
                    else log (EvFault plaintextPtr) s3))))"

definition decrypt_body ::
  "'c engine \<Rightarrow> addr \<Rightarrow> addr \<Rightarrow> nat \<Rightarrow> addr \<Rightarrow> nat \<Rightarrow> addr \<Rightarrow> nat
     \<Rightarrow> 'c world \<Rightarrow> byte list option \<times> error option \<times> 'c world" where
  "decrypt_body E decryptionPtr ciphertextPtr ciphertextLength macPtr macLength
       ephemeralKeyPtr ephemeralLength s =
     (case heap s decryptionPtr of
        Some (DecCtx d) \<Rightarrow>
          (let maxPlaintextLength = olm_pk_max_plaintext_length E d ciphertextLength in
           case malloc maxPlaintextLength s of
             (None, s1) \<Rightarrow>
               (None, Some (Literal ''plaintext JNI allocation OOM''),
                free_if None (free_if None s1))
           | (Some plaintextPtr, s1) \<Rightarrow>
               (case malloc ciphertextLength s1 of
                  (None, s2) \<Rightarrow>
                    (None, None, free_if (Some plaintextPtr) (free_if None s2))
                | (Some tempCiphertextPtr, s2) \<Rightarrow>
                    (case decrypt_call E decryptionPtr d ciphertextPtr ciphertextLength
                            macPtr macLength ephemeralKeyPtr ephemeralLength
                            plaintextPtr maxPlaintextLength tempCiphertextPtr s2 of
                       (r, errorMessage, s3) \<Rightarrow>
                         (r, errorMessage,
                          free_if (Some plaintextPtr) (free_if (Some tempCiphertextPtr) s3)))))
      | _ \<Rightarrow> (None, None, log (EvFault decryptionPtr) s))"

text \<open>The tail of \<^verbatim>\<open>decryptJni\<close>: give the text views back, throw when a message is set.\<close>

definition decrypt_finish ::
  "addr option \<Rightarrow> addr option \<Rightarrow> addr option \<Rightarrow> byte list option \<Rightarrow> error option \<Rightarrow> 'c world
     \<Rightarrow> byte list option outcome \<times> 'c world" where
  "decrypt_finish ciphertextPtr macPtr ephemeralKeyPtr decryptedMsgRet errorMessage s =
     (\<lparr>ret = decryptedMsgRet, exn = errorMessage\<rparr>,
      release_view ephemeralKeyPtr (release_view macPtr (release_view ciphertextPtr s)))"

text \<open>
  The chain of checks of \<^verbatim>\<open>decryptJni\<close> after the ciphertext field has been read. The
  source reads the ciphertext field and asks for its text view twice; the second view
  replaces the first in \<^verbatim>\<open>ciphertextPtr\<close>, also when it is null.
\<close>

definition decrypt_views ::
  "'c engine \<Rightarrow> addr \<Rightarrow> message \<Rightarrow> byte list \<Rightarrow> 'c world
     \<Rightarrow> byte list option outcome \<times> 'c world" where
  "decrypt_views E decryptionPtr m ct s =
     (case GetStringUTFChars ct s of
        (None, s1) \<Rightarrow>
          decrypt_finish None None None None (Some (Literal ''ciphertext JNI allocation OOM'')) s1
      | (Some firstPtr, s1) \<Rightarrow>
          (case mCipherText m of
             None \<Rightarrow>
               decrypt_finish (Some firstPtr) None None None (Some (Literal ''no ciphertext'')) s1
           | Some ct2 \<Rightarrow>
               (case GetStringUTFChars ct2 s1 of
                  (None, s2) \<Rightarrow>
                    decrypt_finish None None None None
                      (Some (Literal ''ciphertext JNI allocation OOM'')) s2
                | (Some ciphertextPtr, s2) \<Rightarrow>
                    if \<not> field_ok s2 ''mMac''
                    then decrypt_finish (Some ciphertextPtr) None None None
                           (Some (Literal ''unable to get MAC field'')) s2
                    else
                      (case mMac m of
                         None \<Rightarrow>
                           decrypt_finish (Some ciphertextPtr) None None None
                             (Some (Literal ''no MAC'')) s2
                       | Some mac \<Rightarrow>
                           (case GetStringUTFChars mac s2 of
                              (None, s3) \<Rightarrow>
                                decrypt_finish (Some ciphertextPtr) None None None
                                  (Some (Literal ''ciphertext JNI allocation OOM'')) s3
                            | (Some macPtr, s3) \<Rightarrow>
                                if \<not> field_ok s3 ''mEphemeralKey''
                                then decrypt_finish (Some ciphertextPtr) (Some macPtr) None None
                                       (Some (Literal ''unable to get ephemeral key field'')) s3
                                else
                                  (case mEphemeralKey m of
                                     None \<Rightarrow>
                                       decrypt_finish (Some ciphertextPtr) (Some macPtr) None None
                                         (Some (Literal ''no ephemeral key'')) s3
                                   | Some eph \<Rightarrow>
                                       (case GetStringUTFChars eph s3 of
                                          (None, s4) \<Rightarrow>
                                            decrypt_finish (Some ciphertextPtr) (Some macPtr) None
                                              None
                                              (Some (Literal ''ephemeral key JNI allocation OOM''))
                                              s4
                                        | (Some ephemeralKeyPtr, s4) \<Rightarrow>
                                            (case decrypt_body E decryptionPtr
                                                    ciphertextPtr (length ct2)
                                                    macPtr (length mac)
                                                    ephemeralKeyPtr (length eph) s4 of
                                               (r, errorMessage, s5) \<Rightarrow>
                                                 decrypt_finish (Some ciphertextPtr)
                                                   (Some macPtr) (Some ephemeralKeyPtr)
                                                   r errorMessage s5))))))))"

definition decryptJni ::
  "'c engine \<Rightarrow> addr \<Rightarrow> message option \<Rightarrow> 'c world \<Rightarrow> byte list option outcome \<times> 'c world" where
  "decryptJni E decryptionPtr aEncryptedMsg s =
     (if decryptionPtr = 0
      then decrypt_finish None None None None (Some (Literal ''invalid Decryption ptr=NULL'')) s
      else
        (case aEncryptedMsg of
           None \<Rightarrow>
             decrypt_finish None None None None (Some (Literal ''invalid encrypted message'')) s
         | Some m \<Rightarrow>
             if \<not> class_ok s
             then decrypt_finish None None None None
                    (Some (Literal ''unable to get encrypted message class'')) s
             else if \<not> field_ok s ''mCipherText''
             then decrypt_finish None None None None
                    (Some (Literal ''unable to get message field'')) s
             else
               (case mCipherText m of
                  None \<Rightarrow>
                    decrypt_finish None None None None (Some (Literal ''no ciphertext'')) s
                | Some ct \<Rightarrow> decrypt_views E decryptionPtr m ct s)))"

section \<open>Bookkeeping for the statements\<close>

text \<open>The events a call added to the trace.\<close>

definition during :: "'c world \<Rightarrow> 'c world \<Rightarrow> 'c event list" where
  "during s s' = drop (length (trace s)) (trace s')"

text \<open>
  The allocator's invariant: address 0 is never handed out, and nothing lives at or above
  the next fresh address.
\<close>

definition wf_world :: "'c world \<Rightarrow> bool" where
  "wf_world s \<longleftrightarrow> 0 < nxt s \<and> (\<forall>a. nxt s \<le> a \<longrightarrow> heap s a = None)"

text \<open>The next \<open>k\<close> native allocations succeed.\<close>

definition allocs_ok :: "nat \<Rightarrow> 'c world \<Rightarrow> bool" where
  "allocs_ok k s \<longleftrightarrow> True \<notin> set (take k (alloc_fail s))"


text \<open>
  Every buffer that \<^verbatim>\<open>malloc\<close> handed out during the call is still live, with the
  engine's key length, when the call returns, and no release of it was recorded.
\<close>

definition leaked :: "'c engine \<Rightarrow> 'c world \<Rightarrow> 'c world \<Rightarrow> bool" where
  "leaked E s s' \<longleftrightarrow>
     (\<forall>a n. EvMalloc a n \<in> set (during s s') \<longrightarrow>
        (\<exists>bs. heap s' a = Some (Bytes bs) \<and> length bs = olm_pk_key_length E)
      \<and> (\<forall>b. EvFree a b \<notin> set (during s s')))"

text \<open>
  Every buffer that \<^verbatim>\<open>setRandomInBuffer\<close> handed out during the call was zeroed over its
  full length, held only zeroes when it was freed, and is gone; every buffer that
  \<^verbatim>\<open>malloc\<close> handed out during the call was freed and is gone.
\<close>

definition wiped :: "'c world \<Rightarrow> 'c world \<Rightarrow> bool" where
  "wiped s s' \<longleftrightarrow>
     (\<forall>r n. EvRandom r n \<in> set (during s s') \<longrightarrow>
        EvMemset r n \<in> set (during s s')
      \<and> EvFree r (Bytes (replicate n 0)) \<in> set (during s s')
      \<and> heap s' r = None)
   \<and> (\<forall>a k. EvMalloc a k \<in> set (during s s') \<longrightarrow>
        (\<exists>b. EvFree a b \<in> set (during s s')) \<and> heap s' a = None)"


subsection \<open>A small engine to run the bridge on\<close>

text \<open>
  A stand-in engine with two-byte keys, used where a statement is run on concrete data.
  It rejects a recipient key that is too short, refuses to generate a key from random
  bytes that start with zero, shifts every plaintext byte by one, uses a one-byte tag,
  and decrypts only for the matching key and tag.
\<close>

record toy_ctx =
  toy_key :: "byte list"
  toy_error :: string

definition toy_engine :: "toy_ctx engine" where
  "toy_engine =
     \<lparr>olm_pk_key_length = 2,
      olm_pk_encryption_size = 8,
      olm_pk_encryption = \<lparr>toy_key = [], toy_error = ''SUCCESS''\<rparr>,
      olm_clear_pk_encryption = (\<lambda>c. \<lparr>toy_key = [], toy_error = ''SUCCESS''\<rparr>),
      olm_pk_encryption_last_error = toy_error,
      olm_pk_encryption_set_recipient_key =
        (\<lambda>c k. if length k < 2 then (c\<lparr>toy_error := ''INPUT_BUFFER_TOO_SMALL''\<rparr>, False)
               else (c\<lparr>toy_key := take 2 k\<rparr>, True)),
      olm_pk_ciphertext_length = (\<lambda>c n. n),
      olm_pk_mac_length = (\<lambda>c. 1),
      olm_pk_encrypt_random_length = (\<lambda>c. 2),
      olm_pk_encrypt =
        (\<lambda>c pt ctl macl ephl rnd.
           if length (toy_key c) \<noteq> 2 then (c\<lparr>toy_error := ''BAD_RECIPIENT_KEY''\<rparr>, None)
           else (c, Some (map (\<lambda>b. b + 1) pt, [77], toy_key c))),
      olm_pk_decryption_size = 8,
      olm_pk_decryption = \<lparr>toy_key = [], toy_error = ''SUCCESS''\<rparr>,
      olm_clear_pk_decryption = (\<lambda>c. \<lparr>toy_key = [], toy_error = ''SUCCESS''\<rparr>),
      olm_pk_decryption_last_error = toy_error,
      olm_pk_generate_key_random_length = 2,
      olm_pk_generate_key =
        (\<lambda>c publen rnd.
           if take 1 rnd = [0] then (c\<lparr>toy_error := ''BAD_RANDOM''\<rparr>, None)
           else (c\<lparr>toy_key := rnd\<rparr>, Some rnd)),
      olm_pk_max_plaintext_length = (\<lambda>c n. n),
      olm_pk_decrypt =
        (\<lambda>c eph mac ct mx.
           if eph = toy_key c \<and> mac = [77]
           then (c, map (\<lambda>b. b - 1) ct, Some (length ct, map (\<lambda>b. b - 1) ct))
           else (c\<lparr>toy_error := ''BAD_MESSAGE_MAC''\<rparr>, ct, None))\<rparr>"

text \<open>
  The same engine with a plaintext bound that is three bytes above what it then writes,
  so that a decrypt reports fewer bytes than the plaintext buffer holds.
\<close>

definition slack_engine :: "toy_ctx engine" where
  "slack_engine = toy_engine\<lparr>olm_pk_max_plaintext_length := (\<lambda>c n. n + 3)\<rparr>"

text \<open>An empty store whose random provider still holds the given bytes.\<close>

definition fresh_world :: "bool list \<Rightarrow> byte list \<Rightarrow> toy_ctx world" where
  "fresh_world script rnd =
     \<lparr>heap = Map.empty, nxt = 1, alloc_fail = script, junk = 170, entropy = rnd,
      class_ok = True, field_ok = (\<lambda>f. True), trace = []\<rparr>"

text \<open>A store that holds one context at address 1.\<close>

definition one_context :: "toy_ctx block \<Rightarrow> bool list \<Rightarrow> byte list \<Rightarrow> toy_ctx world" where
  "one_context b script rnd =
     \<lparr>heap = [1 \<mapsto> b], nxt = 2, alloc_fail = script, junk = 170, entropy = rnd,
      class_ok = True, field_ok = (\<lambda>f. True), trace = []\<rparr>"



section \<open>Running the model\<close>

text \<open>
  The bridge functions are straight-line code over the world; a statement about one path
  is settled by unfolding them and rewriting the world step by step.
\<close>

lemmas prim_defs = log_def alloc_def malloc_def free_def bytes_at_def memset_def
  store_def poke_def free_if_def handle_of_def GetByteArrayElements_def GetStringUTFChars_def
  release_view_def setRandomInBuffer_def wipe_random_def read_region_def

lemmas gen_defs = generateKeyJni_def generateKey_call_def generateKey_finish_def
  clear_free_decryption_def during_def Let_def

lemmas dec_defs = decryptJni_def decrypt_views_def decrypt_body_def decrypt_call_def
  decrypt_finish_def during_def Let_def

lemmas enc_defs = encryptJni_def encrypt_lookup_def encrypt_body_def encrypt_call_def
  encrypt_cleanup_def during_def Let_def

lemmas toy_defs = toy_engine_def fresh_world_def one_context_def next_fails_def
  overwrite_def NewStringUTF_def uninitialised_def

lemma length_overwrite: "length (overwrite old new) = length old"
  by (simp add: overwrite_def)

lemma length_uninitialised: "length (uninitialised n j) = n"
  by (simp add: uninitialised_def)

lemma overwrite_exact: "length new = length old \<Longrightarrow> overwrite old new = new"
  by (simp add: overwrite_def)

lemma c_string_roundtrip:
  assumes "length str = n" and "0 \<notin> set str" and "length old = Suc n"
  shows "NewStringUTF (overwrite (old[n := 0]) str) = str"
proof -
  obtain xs x where old: "old = xs @ [x]" and xs: "length xs = n"
    using assms(3) by (metis length_Suc_conv_rev)
  have "overwrite (old[n := 0]) str = str @ [0]"
    using assms(1) xs by (simp add: old overwrite_def list_update_append)
  then show ?thesis
    using assms(2) by (auto simp add: NewStringUTF_def takeWhile_tail)
qed

lemma take_overwrite: "length new \<le> length old \<Longrightarrow> take (length new) (overwrite old new) = new"
  by (simp add: overwrite_def)


lemmas run_simps = prim_defs length_uninitialised length_overwrite overwrite_exact

lemma live_below:
  assumes "wf_world s" and "heap s a = Some b"
  shows "a < nxt s"
proof (rule ccontr)
  assume "\<not> a < nxt s"
  then have "heap s a = None" using assms(1) by (simp add: wf_world_def)
  with assms(2) show False by simp
qed

text \<open>When the next \<open>n\<close> allocations succeed, none of the first \<open>n\<close> script entries fails.\<close>

lemma script_nth:
  "True \<notin> set (take n xs) \<Longrightarrow> i < n \<Longrightarrow> \<not> next_fails ((tl ^^ i) xs)"
proof (induction i arbitrary: n xs)
  case 0
  then show ?case by (cases xs; cases n) (auto simp: next_fails_def)
next
  case (Suc i)
  then obtain m where n: "n = Suc m" by (cases n) auto
  show ?case
  proof (cases xs)
    case Nil
    have "(tl ^^ i) ([]::bool list) = []" by (induction i) auto
    then show ?thesis using Nil by (simp add: funpow_swap1 next_fails_def)
  next
    case (Cons x ys)
    with Suc.prems n have "True \<notin> set (take m ys)" "i < m" by auto
    from Suc.IH [OF this] show ?thesis using Cons by (simp add: funpow_swap1)
  qed
qed

lemma allocs_okD:
  assumes "allocs_ok n s"
  shows "0 < n \<Longrightarrow> \<not> next_fails (alloc_fail s)"
    and "1 < n \<Longrightarrow> \<not> next_fails (tl (alloc_fail s))"
    and "2 < n \<Longrightarrow> \<not> next_fails (tl (tl (alloc_fail s)))"
    and "3 < n \<Longrightarrow> \<not> next_fails (tl (tl (tl (alloc_fail s))))"
    and "4 < n \<Longrightarrow> \<not> next_fails (tl (tl (tl (tl (alloc_fail s)))))"
    and "5 < n \<Longrightarrow> \<not> next_fails (tl (tl (tl (tl (tl (alloc_fail s))))))"
  using assms script_nth [of n "alloc_fail s" 0] script_nth [of n "alloc_fail s" 1]
    script_nth [of n "alloc_fail s" 2] script_nth [of n "alloc_fail s" 3]
    script_nth [of n "alloc_fail s" 4] script_nth [of n "alloc_fail s" 5]
  by (simp_all add: allocs_ok_def eval_nat_numeral)

section \<open>The two paths that reach the engine's encrypt and decrypt\<close>

text \<open>
  An encrypt call on a live context whose five allocations succeed, whose random bytes
  are delivered and whose engine call succeeds with outputs of the announced lengths:
  the ciphertext bytes are returned as they are, the MAC and the ephemeral key reach the
  message as text, and the random buffer is the fifth allocation.
\<close>

lemma encrypt_success:
  assumes live: "heap s h = Some (EncCtx e)" and nn: "h \<noteq> 0" and wf: "wf_world s"
    and env: "class_ok s" "field_ok s ''mMac''" "field_ok s ''mEphemeralKey''"
    and ok: "allocs_ok 5 s"
    and ent: "olm_pk_encrypt_random_length E e \<le> length (entropy s)"
    and eng: "olm_pk_encrypt E e p (olm_pk_ciphertext_length E e (length p))
               (olm_pk_mac_length E e) (olm_pk_key_length E)
               (take (olm_pk_encrypt_random_length E e) (entropy s)) = (e', Some (ct, mac, eph))"
    and len: "length ct = olm_pk_ciphertext_length E e (length p)"
             "length mac = olm_pk_mac_length E e" "length eph = olm_pk_key_length E"
    and nz: "0 \<notin> set mac" "0 \<notin> set eph"
  shows "fst (encryptJni E h (Some p) (Some m) s) = \<lparr>ret = Some ct, exn = None\<rparr>"
    and "fst (snd (encryptJni E h (Some p) (Some m) s))
           = Some (m\<lparr>mMac := Some mac, mEphemeralKey := Some eph\<rparr>)"
    and "EvRandom (nxt s + 4) (olm_pk_encrypt_random_length E e)
           \<in> set (during s (snd (snd (encryptJni E h (Some p) (Some m) s))))"
proof -
  note f = allocs_okD [OF ok]
  have lt: "h < nxt s" using live_below [OF wf live] .
  show "fst (encryptJni E h (Some p) (Some m) s) = \<lparr>ret = Some ct, exn = None\<rparr>"
    using live nn env f ent eng len lt
    by (simp add: enc_defs prim_defs length_uninitialised length_overwrite overwrite_exact
          cong: prod.case_cong_weak)
  show "fst (snd (encryptJni E h (Some p) (Some m) s))
           = Some (m\<lparr>mMac := Some mac, mEphemeralKey := Some eph\<rparr>)"
    using live nn env f ent eng len nz lt
    by (simp add: enc_defs prim_defs length_uninitialised length_overwrite c_string_roundtrip
          cong: prod.case_cong_weak)
  show "EvRandom (nxt s + 4) (olm_pk_encrypt_random_length E e)
           \<in> set (during s (snd (snd (encryptJni E h (Some p) (Some m) s))))"
    using live nn env f ent eng lt
    by (simp add: enc_defs prim_defs length_uninitialised length_overwrite
          cong: prod.case_cong_weak)
qed

text \<open>
  A decrypt call on a live context with a complete message whose six allocations succeed
  and whose engine call succeeds: the result is the reported number of bytes read from
  the start of the plaintext buffer.
\<close>

lemma decrypt_result:
  assumes live: "heap s h = Some (DecCtx d)" and nn: "h \<noteq> 0" and wf: "wf_world s"
    and env: "class_ok s" "field_ok s ''mCipherText''" "field_ok s ''mMac''"
             "field_ok s ''mEphemeralKey''"
    and msg: "mCipherText m = Some ct" "mMac m = Some mac" "mEphemeralKey m = Some eph"
    and ok: "allocs_ok 6 s"
    and eng: "olm_pk_decrypt E d eph mac ct (olm_pk_max_plaintext_length E d (length ct))
                = (d', clobbered, Some (n, written))"
  shows "fst (decryptJni E h (Some m) s) =
           \<lparr>ret = Some (take n
                    (overwrite
                       (uninitialised (olm_pk_max_plaintext_length E d (length ct)) (junk s))
                       written
                     @ replicate (n - olm_pk_max_plaintext_length E d (length ct)) (junk s))),
            exn = None\<rparr>"
proof -
  note f = allocs_okD [OF ok]
  have lt: "h < nxt s" using live_below [OF wf live] .
  show ?thesis
  proof (cases "n \<le> olm_pk_max_plaintext_length E d (length ct)")
    case True
    with live nn env msg f eng lt show ?thesis
      by (simp add: dec_defs run_simps cong: prod.case_cong_weak)
  next
    case False
    with live nn env msg f eng lt show ?thesis
      by (simp add: dec_defs run_simps cong: prod.case_cong_weak)
  qed
qed

section \<open>Key generation\<close>

text \<open>
  C1, as the code has it. A call to \<^verbatim>\<open>generateKeyJni\<close> on a live decryption context
  that gets its random buffer and its public-key buffer, and whose engine call fails,
  throws the engine's last-error string, returns null, and clears and frees the context:
  the context is gone from the store when the call returns.
\<close>

theorem generateKey_failure_destroys_context:
  assumes live: "heap s decryptionPtr = Some (DecCtx d)"
    and nonnull: "decryptionPtr \<noteq> 0"
    and wf: "wf_world s"
    and ok: "allocs_ok 2 s"
    and rnd: "olm_pk_generate_key_random_length E \<le> length (entropy s)"
    and fails: "olm_pk_generate_key E d (olm_pk_key_length E)
                  (take (olm_pk_generate_key_random_length E) (entropy s)) = (d', None)"
  shows "exn (fst (generateKeyJni E decryptionPtr s))
           = Some (EngineMsg (olm_pk_decryption_last_error E d'))
       \<and> ret (fst (generateKeyJni E decryptionPtr s)) = None
       \<and> heap (snd (generateKeyJni E decryptionPtr s)) decryptionPtr = None
       \<and> EvFree decryptionPtr (DecCtx (olm_clear_pk_decryption E d'))
           \<in> set (during s (snd (generateKeyJni E decryptionPtr s)))"
proof -
  have lt: "decryptionPtr < nxt s" using live_below [OF wf live] .
  show ?thesis
    using live nonnull rnd fails lt allocs_okD(1,2) [OF ok]
    by (simp add: gen_defs prim_defs cong: prod.case_cong_weak)
qed

theorem generateKey_failure_destroys_context_witness:
  "wf_world (one_context (DecCtx \<lparr>toy_key = [], toy_error = ''SUCCESS''\<rparr>) [] [0, 9])
   \<and> allocs_ok 2 (one_context (DecCtx \<lparr>toy_key = [], toy_error = ''SUCCESS''\<rparr>) [] [0, 9])
   \<and> exn (fst (generateKeyJni toy_engine 1
         (one_context (DecCtx \<lparr>toy_key = [], toy_error = ''SUCCESS''\<rparr>) [] [0, 9])))
      = Some (EngineMsg ''BAD_RANDOM'')
   \<and> heap (snd (generateKeyJni toy_engine 1
         (one_context (DecCtx \<lparr>toy_key = [], toy_error = ''SUCCESS''\<rparr>) [] [0, 9]))) 1 = None"
proof -
  let ?d = "\<lparr>toy_key = [], toy_error = ''SUCCESS''\<rparr>"
  let ?s = "one_context (DecCtx ?d) [] [0, 9]"
  have 1: "heap ?s 1 = Some (DecCtx ?d)" by (simp add: toy_defs)
  have 2: "(1::nat) \<noteq> 0" by simp
  have 3: "wf_world ?s" by (simp add: wf_world_def toy_defs)
  have 4: "allocs_ok 2 ?s" by (simp add: allocs_ok_def toy_defs)
  have 5: "olm_pk_generate_key_random_length toy_engine \<le> length (entropy ?s)"
    by (simp add: toy_defs)
  have 6: "olm_pk_generate_key toy_engine ?d (olm_pk_key_length toy_engine)
             (take (olm_pk_generate_key_random_length toy_engine) (entropy ?s))
           = (\<lparr>toy_key = [], toy_error = ''BAD_RANDOM''\<rparr>, None)"
    by (simp add: toy_defs)
  show ?thesis
    using generateKey_failure_destroys_context [OF 1 2 3 4 5 6] 3 4 by (simp add: toy_defs)
qed

text \<open>
  C1 as stated fails in its last part. The bridge keeps no record that the context is
  gone and the handle stays what it was: an operation that is called with it afterwards
  is not turned away. Here the key generation fails with the engine's message, and the
  release that follows on the same handle runs the engine's clear and \<^verbatim>\<open>free\<close> on the
  address that was already freed.
\<close>

theorem generateKey_failure_leaves_stale_handle:
  "exn (fst (generateKeyJni toy_engine 1
          (one_context (DecCtx \<lparr>toy_key = [], toy_error = ''SUCCESS''\<rparr>) [] [0, 9])))
     = Some (EngineMsg ''BAD_RANDOM'')
   \<and> during
        (snd (generateKeyJni toy_engine 1
           (one_context (DecCtx \<lparr>toy_key = [], toy_error = ''SUCCESS''\<rparr>) [] [0, 9])))
        (releasePkDecryptionJni toy_engine 1
           (snd (generateKeyJni toy_engine 1
              (one_context (DecCtx \<lparr>toy_key = [], toy_error = ''SUCCESS''\<rparr>) [] [0, 9]))))
     = [EvFault 1, EvFault 1]"
  by (simp add: gen_defs releasePkDecryptionJni_def prim_defs toy_defs)

lemma generateKey_leaked: "leaked E s (snd (generateKeyJni E h s))"
proof -
  consider (null) "h = 0"
    | (noalloc) "h \<noteq> 0" "next_fails (alloc_fail s)"
    | (norandom) "h \<noteq> 0" "\<not> next_fails (alloc_fail s)"
        "length (entropy s) < olm_pk_generate_key_random_length E"
    | (nokey) "h \<noteq> 0" "\<not> next_fails (alloc_fail s)"
        "\<not> length (entropy s) < olm_pk_generate_key_random_length E"
        "next_fails (tl (alloc_fail s))"
    | (call) "h \<noteq> 0" "\<not> next_fails (alloc_fail s)"
        "\<not> length (entropy s) < olm_pk_generate_key_random_length E"
        "\<not> next_fails (tl (alloc_fail s))"
    by blast
  then show ?thesis
  proof cases
    case null
    then show ?thesis
      by (simp add: leaked_def gen_defs run_simps cong: prod.case_cong_weak)
  next
    case noalloc
    then show ?thesis
      by (simp add: leaked_def gen_defs run_simps split: option.splits block.splits
            cong: prod.case_cong_weak)
  next
    case norandom
    then show ?thesis
      by (simp add: leaked_def gen_defs run_simps split: option.splits block.splits
            cong: prod.case_cong_weak)
  next
    case nokey
    then show ?thesis
      by (simp add: leaked_def gen_defs run_simps split: option.splits block.splits
            cong: prod.case_cong_weak)
  next
    case call
    show ?thesis
    proof (cases "h = nxt s \<or> h = Suc (nxt s)")
      case True
      with call show ?thesis
        by (auto simp add: leaked_def gen_defs run_simps cong: prod.case_cong_weak)
    next
      case False
      then have ne: "h \<noteq> nxt s" "h \<noteq> Suc (nxt s)" by auto
      show ?thesis
      proof (cases "heap s h")
        case None
        with call ne show ?thesis
          by (simp add: leaked_def gen_defs run_simps cong: prod.case_cong_weak)
      next
        case (Some b)
        show ?thesis
        proof (cases b)
          case (Bytes x)
          with Some call ne show ?thesis
            by (simp add: leaked_def gen_defs run_simps cong: prod.case_cong_weak)
        next
          case (EncCtx x)
          with Some call ne show ?thesis
            by (simp add: leaked_def gen_defs run_simps cong: prod.case_cong_weak)
        next
          case (DecCtx d)
          obtain d' r where eng:
            "olm_pk_generate_key E d (olm_pk_key_length E)
               (take (olm_pk_generate_key_random_length E) (entropy s)) = (d', r)"
            by (cases "olm_pk_generate_key E d (olm_pk_key_length E)
               (take (olm_pk_generate_key_random_length E) (entropy s))") auto
          show ?thesis
          proof (cases r)
            case None
            with DecCtx Some call ne eng show ?thesis
              by (simp add: leaked_def gen_defs run_simps cong: prod.case_cong_weak)
          next
            case (Some key)
            with DecCtx \<open>heap s h = Some b\<close> call ne eng show ?thesis
              by (simp add: leaked_def gen_defs run_simps
                    cong: prod.case_cong_weak)
          qed
        qed
      qed
    qed
  qed
qed

text \<open>
  C10. In every call to \<^verbatim>\<open>generateKeyJni\<close>, a buffer that \<^verbatim>\<open>malloc\<close> handed out during
  the call (the public-key buffer is the only one) is never released before the call
  returns: on return it is still live in the store with the engine's key length, whether
  the engine succeeded, failed, or was never reached.
\<close>

theorem generateKey_leaks_public_key_buffer:
  assumes "EvMalloc a n \<in> set (during s (snd (generateKeyJni E decryptionPtr s)))"
  shows "(\<exists>bs. heap (snd (generateKeyJni E decryptionPtr s)) a = Some (Bytes bs)
               \<and> length bs = olm_pk_key_length E)
       \<and> (\<forall>b. EvFree a b \<notin> set (during s (snd (generateKeyJni E decryptionPtr s))))"
  using assms generateKey_leaked [of E s decryptionPtr] unfolding leaked_def by blast

theorem generateKey_leaks_public_key_buffer_witness:
  "EvMalloc 3 2 \<in> set (during (one_context (DecCtx (olm_pk_decryption toy_engine)) [] [7, 9])
       (snd (generateKeyJni toy_engine 1
          (one_context (DecCtx (olm_pk_decryption toy_engine)) [] [7, 9]))))
   \<and> heap (snd (generateKeyJni toy_engine 1
          (one_context (DecCtx (olm_pk_decryption toy_engine)) [] [7, 9]))) 3
       = Some (Bytes [7, 9])
   \<and> ret (fst (generateKeyJni toy_engine 1
          (one_context (DecCtx (olm_pk_decryption toy_engine)) [] [7, 9]))) = Some [7, 9]"
proof -
  let ?s = "one_context (DecCtx (olm_pk_decryption toy_engine)) [] [7, 9]"
  have ev: "EvMalloc 3 2 \<in> set (during ?s (snd (generateKeyJni toy_engine 1 ?s)))"
    by (simp add: gen_defs prim_defs toy_defs)
  have "\<exists>bs. heap (snd (generateKeyJni toy_engine 1 ?s)) 3 = Some (Bytes bs)
          \<and> length bs = olm_pk_key_length toy_engine"
    using generateKey_leaks_public_key_buffer [OF ev] by blast
  moreover have "heap (snd (generateKeyJni toy_engine 1 ?s)) 3 = Some (Bytes [7, 9])"
    by (simp add: gen_defs prim_defs toy_defs)
  moreover have "ret (fst (generateKeyJni toy_engine 1 ?s)) = Some [7, 9]"
    by (simp add: gen_defs prim_defs toy_defs)
  ultimately show ?thesis using ev by blast
qed

section \<open>Encryption\<close>

lemma encrypt_wiped_live:
  assumes live: "heap s h = Some (EncCtx e)" and lt: "h < nxt s" and nn: "h \<noteq> 0"
    and ok: "\<not> next_fails (alloc_fail s)" "class_ok s" "field_ok s ''mMac''"
            "field_ok s ''mEphemeralKey''"
  shows "wiped s (snd (snd (encryptJni E h (Some p) (Some m) s)))"
proof (cases "next_fails (tl (alloc_fail s))")
  case True
  with assms show ?thesis
    by (simp add: wiped_def enc_defs run_simps cong: prod.case_cong_weak)
next
  case f1: False
  show ?thesis
  proof (cases "next_fails (tl (tl (alloc_fail s)))")
    case True
    with assms f1 show ?thesis
      by (simp add: wiped_def enc_defs run_simps cong: prod.case_cong_weak)
  next
    case f2: False
    show ?thesis
    proof (cases "next_fails (tl (tl (tl (alloc_fail s))))")
      case True
      with assms f1 f2 show ?thesis
        by (simp add: wiped_def enc_defs run_simps cong: prod.case_cong_weak)
    next
      case f3: False
      show ?thesis
      proof (cases "next_fails (tl (tl (tl (tl (alloc_fail s)))))")
        case True
        with assms f1 f2 f3 show ?thesis
          by (simp add: wiped_def enc_defs run_simps cong: prod.case_cong_weak)
      next
        case f4: False
        show ?thesis
        proof (cases "length (entropy s) < olm_pk_encrypt_random_length E e")
          case True
          with assms f1 f2 f3 f4 show ?thesis
            by (simp add: wiped_def enc_defs run_simps cong: prod.case_cong_weak)
        next
          case ent: False
          obtain e' r where eng:
            "olm_pk_encrypt E e p (olm_pk_ciphertext_length E e (length p))
               (olm_pk_mac_length E e) (olm_pk_key_length E)
               (take (olm_pk_encrypt_random_length E e) (entropy s)) = (e', r)"
            by (cases "olm_pk_encrypt E e p (olm_pk_ciphertext_length E e (length p))
               (olm_pk_mac_length E e) (olm_pk_key_length E)
               (take (olm_pk_encrypt_random_length E e) (entropy s))") auto
          show ?thesis
          proof (cases r)
            case None
            with assms f1 f2 f3 f4 ent eng show ?thesis
              by (simp add: wiped_def enc_defs run_simps cong: prod.case_cong_weak)
          next
            case (Some out)
            obtain ct mac eph where "out = (ct, mac, eph)" by (cases out) auto
            with Some assms f1 f2 f3 f4 ent eng show ?thesis
              by (simp add: wiped_def enc_defs run_simps cong: prod.case_cong_weak)
          qed
        qed
      qed
    qed
  qed
qed


lemma encrypt_wiped_other:
  assumes "h = 0 \<or> pt = None \<or> next_fails (alloc_fail s) \<or> m = None \<or> \<not> class_ok s
            \<or> \<not> field_ok s ''mMac'' \<or> \<not> field_ok s ''mEphemeralKey''
            \<or> (\<forall>e. heap s h \<noteq> Some (EncCtx e))"
  shows "wiped s (snd (snd (encryptJni E h pt m s)))"
proof (cases "h = 0")
  case True
  then show ?thesis by (simp add: wiped_def enc_defs)
next
  case nn: False
  show ?thesis
  proof (cases pt)
    case None
    with nn show ?thesis by (simp add: wiped_def enc_defs)
  next
    case (Some p)
    note pt = this
    show ?thesis
    proof (cases "next_fails (alloc_fail s)")
      case True
      with nn pt show ?thesis
        by (simp add: wiped_def enc_defs run_simps cong: prod.case_cong_weak)
    next
      case f0: False
      show ?thesis
      proof (cases m)
        case None
        with nn pt f0 show ?thesis
          by (simp add: wiped_def enc_defs run_simps cong: prod.case_cong_weak)
      next
        case (Some msg)
        note m = this
        show ?thesis
        proof (cases "class_ok s \<and> field_ok s ''mMac'' \<and> field_ok s ''mEphemeralKey''")
          case False
          with nn pt f0 m show ?thesis
            by (auto simp add: wiped_def enc_defs run_simps cong: prod.case_cong_weak)
        next
          case True
          with assms nn pt f0 m have bad: "\<forall>e. heap s h \<noteq> Some (EncCtx e)" by auto
          show ?thesis
          proof (cases "heap s h")
            case None
            with nn pt f0 m True show ?thesis
              by (simp add: wiped_def enc_defs run_simps cong: prod.case_cong_weak)
          next
            case (Some b)
            with bad nn pt f0 m True show ?thesis
              by (cases b) (simp_all add: wiped_def enc_defs run_simps cong: prod.case_cong_weak)
          qed
        qed
      qed
    qed
  qed
qed

text \<open>
  C4. In every call to \<^verbatim>\<open>encryptJni\<close> during which the random buffer was allocated,
  whatever the outcome of the call, that buffer is overwritten with zeroes over its full
  length, holds only zeroes at the moment it is freed, and is freed before the call
  returns; the ciphertext, MAC and ephemeral-key scratch buffers (the buffers \<^verbatim>\<open>malloc\<close>
  handed out) are freed as well.
\<close>

theorem encrypt_random_buffer_zeroed_and_freed:
  assumes wf: "wf_world s"
    and ev: "EvRandom r n \<in> set (during s (snd (snd (encryptJni E h pt m s))))"
  shows "EvMemset r n \<in> set (during s (snd (snd (encryptJni E h pt m s))))
       \<and> EvFree r (Bytes (replicate n 0)) \<in> set (during s (snd (snd (encryptJni E h pt m s))))
       \<and> heap (snd (snd (encryptJni E h pt m s))) r = None
       \<and> (\<forall>a k. EvMalloc a k \<in> set (during s (snd (snd (encryptJni E h pt m s)))) \<longrightarrow>
             (\<exists>b. EvFree a b \<in> set (during s (snd (snd (encryptJni E h pt m s)))))
           \<and> heap (snd (snd (encryptJni E h pt m s))) a = None)"
proof -
  have "wiped s (snd (snd (encryptJni E h pt m s)))"
  proof (cases "h = 0 \<or> pt = None \<or> next_fails (alloc_fail s) \<or> m = None \<or> \<not> class_ok s
            \<or> \<not> field_ok s ''mMac'' \<or> \<not> field_ok s ''mEphemeralKey''
            \<or> (\<forall>e. heap s h \<noteq> Some (EncCtx e))")
    case True
    then show ?thesis by (rule encrypt_wiped_other)
  next
    case False
    then obtain p msg e where "pt = Some p" "m = Some msg" "heap s h = Some (EncCtx e)"
      "h \<noteq> 0" "\<not> next_fails (alloc_fail s)" "class_ok s" "field_ok s ''mMac''"
      "field_ok s ''mEphemeralKey''" by auto
    with encrypt_wiped_live [OF this(3) live_below [OF wf this(3)] this(4-8)] show ?thesis by simp
  qed
  with ev show ?thesis unfolding wiped_def by blast
qed


theorem encrypt_random_buffer_zeroed_and_freed_witness:
  "wf_world (one_context (EncCtx \<lparr>toy_key = [7, 9], toy_error = ''SUCCESS''\<rparr>) [] [5, 6])
   \<and> EvRandom 6 2 \<in> set (during
         (one_context (EncCtx \<lparr>toy_key = [7, 9], toy_error = ''SUCCESS''\<rparr>) [] [5, 6])
         (snd (snd (encryptJni toy_engine 1 (Some [104, 101, 108, 108, 111])
            (Some \<lparr>mCipherText = None, mMac = None, mEphemeralKey = None\<rparr>)
            (one_context (EncCtx \<lparr>toy_key = [7, 9], toy_error = ''SUCCESS''\<rparr>) [] [5, 6])))))
   \<and> EvFree 6 (Bytes [0, 0]) \<in> set (during
         (one_context (EncCtx \<lparr>toy_key = [7, 9], toy_error = ''SUCCESS''\<rparr>) [] [5, 6])
         (snd (snd (encryptJni toy_engine 1 (Some [104, 101, 108, 108, 111])
            (Some \<lparr>mCipherText = None, mMac = None, mEphemeralKey = None\<rparr>)
            (one_context (EncCtx \<lparr>toy_key = [7, 9], toy_error = ''SUCCESS''\<rparr>) [] [5, 6])))))
   \<and> heap (snd (snd (encryptJni toy_engine 1 (Some [104, 101, 108, 108, 111])
            (Some \<lparr>mCipherText = None, mMac = None, mEphemeralKey = None\<rparr>)
            (one_context (EncCtx \<lparr>toy_key = [7, 9], toy_error = ''SUCCESS''\<rparr>) [] [5, 6])))) 6
       = None"
proof -
  let ?k = "\<lparr>toy_key = [7, 9], toy_error = ''SUCCESS''\<rparr>"
  let ?s = "one_context (EncCtx ?k) [] [5, 6]"
  let ?p = "[104, 101, 108, 108, 111] :: byte list"
  let ?ct = "[105, 102, 109, 109, 112] :: byte list"
  let ?m = "\<lparr>mCipherText = None, mMac = None, mEphemeralKey = None\<rparr>"
  let ?s' = "snd (snd (encryptJni toy_engine 1 (Some ?p) (Some ?m) ?s))"
  have e1: "heap ?s 1 = Some (EncCtx ?k)" by (simp add: toy_defs)
  have e2: "(1::nat) \<noteq> 0" by simp
  have e3: "wf_world ?s" by (simp add: wf_world_def toy_defs)
  have e4: "class_ok ?s" "field_ok ?s ''mMac''" "field_ok ?s ''mEphemeralKey''"
    by (simp_all add: toy_defs)
  have e5: "allocs_ok 5 ?s" by (simp add: allocs_ok_def toy_defs)
  have e6: "olm_pk_encrypt_random_length toy_engine ?k \<le> length (entropy ?s)"
    by (simp add: toy_defs)
  have e7: "olm_pk_encrypt toy_engine ?k ?p (olm_pk_ciphertext_length toy_engine ?k (length ?p))
              (olm_pk_mac_length toy_engine ?k) (olm_pk_key_length toy_engine)
              (take (olm_pk_encrypt_random_length toy_engine ?k) (entropy ?s))
            = (?k, Some (?ct, [77], [7, 9]))"
    by (simp add: toy_defs)
  have e8: "length ?ct = olm_pk_ciphertext_length toy_engine ?k (length ?p)"
    "length [77::byte] = olm_pk_mac_length toy_engine ?k"
    "length [7, 9::byte] = olm_pk_key_length toy_engine"
    by (simp_all add: toy_defs)
  have e9: "0 \<notin> set [77::byte]" "0 \<notin> set [7, 9::byte]" by simp_all
  have ev: "EvRandom (nxt ?s + 4) (olm_pk_encrypt_random_length toy_engine ?k)
              \<in> set (during ?s ?s')"
    using encrypt_success(3) [OF e1 e2 e3 e4 e5 e6 e7 e8 e9] .
  have "EvFree (nxt ?s + 4) (Bytes (replicate (olm_pk_encrypt_random_length toy_engine ?k) 0))
            \<in> set (during ?s ?s')
        \<and> heap ?s' (nxt ?s + 4) = None"
    using encrypt_random_buffer_zeroed_and_freed [OF e3 ev] by blast
  with e3 ev show ?thesis by (simp add: toy_defs eval_nat_numeral)
qed

text \<open>
  The other rejection of \<^verbatim>\<open>encryptJni\<close>: a null plaintext buffer on a handle that is not
  null throws, before anything is allocated and before any engine operation.
\<close>

lemma encrypt_null_plaintext_rejected:
  "h \<noteq> 0 \<Longrightarrow>
     encryptJni E h None msg s
       = (\<lparr>ret = None, exn = Some (Literal ''invalid clear message'')\<rparr>, msg, s)"
  by (simp add: encryptJni_def)

text \<open>
  C3. An encrypt call with a null handle returns null, leaves no exception pending, and
  changes nothing.
\<close>

theorem encrypt_null_handle_is_silent:
  "encryptJni E 0 (Some plaintext) msg s = (\<lparr>ret = None, exn = None\<rparr>, msg, s)"
  by (simp add: encryptJni_def)

text \<open>
  C7, as the code has it. On a live encryption context, a null key buffer is rejected
  with the message \<^verbatim>\<open>invalid key\<close> and nothing else happens. A key buffer that is not
  null, whatever its length, is handed to the engine once its view is obtained: the call
  throws exactly when the engine rejects the key, and then with the engine's last-error
  string for that context.
\<close>

theorem setRecipientKey_errors:
  assumes live: "heap s h = Some (EncCtx e)" and nn: "h \<noteq> 0" and wf: "wf_world s"
    and ok: "allocs_ok 1 s"
    and eng: "olm_pk_encryption_set_recipient_key E e key = (e', accepted)"
  shows "setRecipientKeyJni E h None s = (\<lparr>ret = (), exn = Some (Literal ''invalid key'')\<rparr>, s)
       \<and> exn (fst (setRecipientKeyJni E h (Some key) s))
           = (if accepted then None
              else Some (EngineMsg (olm_pk_encryption_last_error E e')))
       \<and> during s (snd (setRecipientKeyJni E h (Some key) s))
           = [EvJniGet (nxt s),
              EvEngine ''olm_pk_encryption_set_recipient_key'' [h, nxt s],
              EvFree (nxt s) (Bytes key)]"
proof -
  have lt: "h < nxt s" using live_below [OF wf live] .
  show ?thesis
    using live nn eng lt allocs_okD(1) [OF ok]
    by (simp add: setRecipientKeyJni_def setRecipientKey_call_def during_def prim_defs
          cong: prod.case_cong_weak)
qed

theorem setRecipientKey_errors_witness:
  "wf_world (one_context (EncCtx \<lparr>toy_key = [], toy_error = ''SUCCESS''\<rparr>) [] [])
   \<and> setRecipientKeyJni toy_engine 1 None
         (one_context (EncCtx \<lparr>toy_key = [], toy_error = ''SUCCESS''\<rparr>) [] [])
       = (\<lparr>ret = (), exn = Some (Literal ''invalid key'')\<rparr>,
          one_context (EncCtx \<lparr>toy_key = [], toy_error = ''SUCCESS''\<rparr>) [] [])
   \<and> exn (fst (setRecipientKeyJni toy_engine 1 (Some [7])
              (one_context (EncCtx \<lparr>toy_key = [], toy_error = ''SUCCESS''\<rparr>) [] [])))
       = Some (EngineMsg ''INPUT_BUFFER_TOO_SMALL'')"
proof -
  let ?k = "\<lparr>toy_key = [], toy_error = ''SUCCESS''\<rparr>"
  let ?s = "one_context (EncCtx ?k) [] []"
  have 1: "heap ?s 1 = Some (EncCtx ?k)" by (simp add: toy_defs)
  have 2: "(1::nat) \<noteq> 0" by simp
  have 3: "wf_world ?s" by (simp add: wf_world_def toy_defs)
  have 4: "allocs_ok 1 ?s" by (simp add: allocs_ok_def toy_defs)
  have 5: "olm_pk_encryption_set_recipient_key toy_engine ?k [7]
             = (\<lparr>toy_key = [], toy_error = ''INPUT_BUFFER_TOO_SMALL''\<rparr>, False)"
    by (simp add: toy_defs)
  show ?thesis
    using setRecipientKey_errors [OF 1 2 3 4 5] 3 by (simp add: toy_defs)
qed

text \<open>
  C7 as stated fails for an empty key buffer: the bridge has no check for it, the engine
  is called with length 0, and the error that reaches the caller is the engine's, not
  \<^verbatim>\<open>invalid key\<close>.
\<close>

theorem setRecipientKey_empty_key_reaches_engine:
  "exn (fst (setRecipientKeyJni toy_engine 1 (Some [])
               (one_context (EncCtx \<lparr>toy_key = [], toy_error = ''SUCCESS''\<rparr>) [] [])))
     = Some (EngineMsg ''INPUT_BUFFER_TOO_SMALL'')"
  by (simp add: setRecipientKeyJni_def setRecipientKey_call_def prim_defs toy_defs)

section \<open>Decryption\<close>

text \<open>
  C2. A decrypt call whose scratch copy of the ciphertext cannot be allocated: the four
  text views and the plaintext buffer were obtained, the sixth allocation fails. The
  call returns null and no exception is pending.
\<close>

theorem decrypt_scratch_oom_is_silent:
  "fst (decryptJni toy_engine 1
          (Some \<lparr>mCipherText = Some [105, 102, 109, 109, 112], mMac = Some [77],
                 mEphemeralKey = Some [7, 9]\<rparr>)
          (one_context (DecCtx \<lparr>toy_key = [7, 9], toy_error = ''SUCCESS''\<rparr>)
             [False, False, False, False, False, True] []))
     = \<lparr>ret = None, exn = None\<rparr>"
  by (simp add: dec_defs prim_defs toy_defs)

text \<open>
  C8. A decrypt call that reaches the engine and gets a success from it returns a byte
  array, with no exception pending, whose length is exactly the number of bytes the
  engine reported. When the report is within the plaintext buffer, the array is the
  first that many bytes of the buffer: the rest of the buffer is not part of it.
\<close>

theorem decrypt_returns_reported_length:
  assumes live: "heap s h = Some (DecCtx d)" and nn: "h \<noteq> 0" and wf: "wf_world s"
    and env: "class_ok s" "field_ok s ''mCipherText''" "field_ok s ''mMac''"
             "field_ok s ''mEphemeralKey''"
    and msg: "mCipherText m = Some ct" "mMac m = Some mac" "mEphemeralKey m = Some eph"
    and ok: "allocs_ok 6 s"
    and eng: "olm_pk_decrypt E d eph mac ct (olm_pk_max_plaintext_length E d (length ct))
                = (d', clobbered, Some (n, written))"
  shows "exn (fst (decryptJni E h (Some m) s)) = None
       \<and> (\<exists>plaintext.
             ret (fst (decryptJni E h (Some m) s)) = Some plaintext
           \<and> length plaintext = n
           \<and> (n \<le> olm_pk_max_plaintext_length E d (length ct) \<longrightarrow>
                plaintext = take n (overwrite
                  (uninitialised (olm_pk_max_plaintext_length E d (length ct)) (junk s))
                  written)))"
proof -
  note res = decrypt_result [OF live nn wf env msg ok eng]
  show ?thesis
    by (simp add: res length_overwrite length_uninitialised)
qed

theorem decrypt_returns_reported_length_witness:
  "olm_pk_max_plaintext_length slack_engine \<lparr>toy_key = [7, 9], toy_error = ''SUCCESS''\<rparr> 5 = 8
   \<and> fst (decryptJni slack_engine 1
          (Some \<lparr>mCipherText = Some [105, 102, 109, 109, 112], mMac = Some [77],
                 mEphemeralKey = Some [7, 9]\<rparr>)
          (one_context (DecCtx \<lparr>toy_key = [7, 9], toy_error = ''SUCCESS''\<rparr>) [] []))
     = \<lparr>ret = Some [104, 101, 108, 108, 111], exn = None\<rparr>"
proof -
  let ?k = "\<lparr>toy_key = [7, 9], toy_error = ''SUCCESS''\<rparr>"
  let ?s = "one_context (DecCtx ?k) [] []"
  let ?p = "[104, 101, 108, 108, 111] :: byte list"
  let ?ct = "[105, 102, 109, 109, 112] :: byte list"
  let ?m = "\<lparr>mCipherText = Some ?ct, mMac = Some [77], mEphemeralKey = Some [7, 9]\<rparr>"
  let ?r = "fst (decryptJni slack_engine 1 (Some ?m) ?s)"
  have mx: "olm_pk_max_plaintext_length slack_engine ?k 5 = 8"
    by (simp add: slack_engine_def toy_defs)
  have d1: "heap ?s 1 = Some (DecCtx ?k)" by (simp add: toy_defs)
  have d2: "(1::nat) \<noteq> 0" by simp
  have d3: "wf_world ?s" by (simp add: wf_world_def toy_defs)
  have d4: "class_ok ?s" "field_ok ?s ''mCipherText''" "field_ok ?s ''mMac''"
    "field_ok ?s ''mEphemeralKey''"
    by (simp_all add: toy_defs)
  have d5: "mCipherText ?m = Some ?ct" "mMac ?m = Some [77]" "mEphemeralKey ?m = Some [7, 9]"
    by simp_all
  have d6: "allocs_ok 6 ?s" by (simp add: allocs_ok_def toy_defs)
  have d7: "olm_pk_decrypt slack_engine ?k [7, 9] [77] ?ct
              (olm_pk_max_plaintext_length slack_engine ?k (length ?ct))
            = (?k, ?p, Some (5, ?p))"
    by (simp add: slack_engine_def toy_defs)
  from decrypt_returns_reported_length [OF d1 d2 d3 d4 d5 d6 d7]
  obtain plaintext where e: "exn ?r = None" and r: "ret ?r = Some plaintext"
    and p: "5 \<le> olm_pk_max_plaintext_length slack_engine ?k (length ?ct) \<longrightarrow>
              plaintext = take 5 (overwrite
                (uninitialised (olm_pk_max_plaintext_length slack_engine ?k (length ?ct))
                   (junk ?s)) ?p)"
    by blast
  have mx': "olm_pk_max_plaintext_length slack_engine ?k (length ?ct) = 8"
    by (simp add: slack_engine_def toy_defs)
  have l5: "length ?p = 5" by simp
  have tk: "take 5 (overwrite (uninitialised 8 (junk ?s)) ?p) = ?p"
    using take_overwrite [of ?p "uninitialised 8 (junk ?s)", unfolded l5]
    by (simp add: length_uninitialised)
  have "(5::nat) \<le> 8" by simp
  with p have "plaintext = take 5 (overwrite (uninitialised 8 (junk ?s)) ?p)"
    unfolding mx' by blast
  then have "plaintext = ?p" using tk by (rule trans)
  with e r have "?r = \<lparr>ret = Some ?p, exn = None\<rparr>" by (cases ?r) simp
  with mx show ?thesis by blast
qed

text \<open>
  C9. A decrypt call that reaches the engine, whatever the engine answers: the events of
  the call are the four text views (the ciphertext twice, the MAC, the ephemeral key),
  the plaintext buffer, the scratch buffer of the ciphertext's length, and the engine
  call, which gets the scratch buffer as its ciphertext argument. What the engine leaves
  in its ciphertext argument ends up in the scratch buffer, which is then freed. The
  ciphertext view that the call releases still holds the original text at that moment,
  and the first ciphertext view, which is never released, holds it on return.
\<close>

theorem decrypt_engine_gets_scratch_copy:
  assumes live: "heap s h = Some (DecCtx d)" and nn: "h \<noteq> 0" and wf: "wf_world s"
    and env: "class_ok s" "field_ok s ''mCipherText''" "field_ok s ''mMac''"
             "field_ok s ''mEphemeralKey''"
    and msg: "mCipherText m = Some ct" "mMac m = Some mac" "mEphemeralKey m = Some eph"
    and ok: "allocs_ok 6 s"
    and eng: "olm_pk_decrypt E d eph mac ct (olm_pk_max_plaintext_length E d (length ct))
                = (d', clobbered, r)"
  shows "during s (snd (decryptJni E h (Some m) s)) =
           [EvJniGet (nxt s), EvJniGet (nxt s + 1), EvJniGet (nxt s + 2), EvJniGet (nxt s + 3),
            EvMalloc (nxt s + 4) (olm_pk_max_plaintext_length E d (length ct)),
            EvMalloc (nxt s + 5) (length ct),
            EvEngine ''olm_pk_decrypt'' [h, nxt s + 3, nxt s + 2, nxt s + 5, nxt s + 4]]
           @ (case r of
                None \<Rightarrow> []
              | Some (n, written) \<Rightarrow>
                  if n \<le> olm_pk_max_plaintext_length E d (length ct) then []
                  else [EvFault (nxt s + 4)])
           @ [EvFree (nxt s + 5) (Bytes (overwrite ct clobbered)),
              EvFree (nxt s + 4) (Bytes
                (case r of
                   None \<Rightarrow> uninitialised (olm_pk_max_plaintext_length E d (length ct)) (junk s)
                 | Some (n, written) \<Rightarrow>
                     overwrite (uninitialised (olm_pk_max_plaintext_length E d (length ct))
                                  (junk s)) written)),
              EvFree (nxt s + 1) (Bytes (ct @ [0])),
              EvFree (nxt s + 2) (Bytes (mac @ [0])),
              EvFree (nxt s + 3) (Bytes (eph @ [0]))]
       \<and> heap (snd (decryptJni E h (Some m) s)) (nxt s) = Some (Bytes (ct @ [0]))"
proof -
  note f = allocs_okD [OF ok]
  have lt: "h < nxt s" using live_below [OF wf live] .
  show ?thesis
  proof (cases r)
    case None
    with live nn env msg f eng lt show ?thesis
      by (simp add: dec_defs run_simps cong: prod.case_cong_weak)
  next
    case (Some a)
    obtain n written where a: "a = (n, written)" by (cases a) auto
    show ?thesis
    proof (cases "n \<le> olm_pk_max_plaintext_length E d (length ct)")
      case True
      with Some a live nn env msg f eng lt show ?thesis
        by (simp add: dec_defs run_simps cong: prod.case_cong_weak)
    next
      case False
      with Some a live nn env msg f eng lt show ?thesis
        by (simp add: dec_defs run_simps cong: prod.case_cong_weak)
    qed
  qed
qed

theorem decrypt_engine_gets_scratch_copy_witness:
  "EvEngine ''olm_pk_decrypt'' [1, 5, 4, 7, 6]
     \<in> set (during (one_context (DecCtx \<lparr>toy_key = [7, 9], toy_error = ''SUCCESS''\<rparr>) [] [])
          (snd (decryptJni toy_engine 1
             (Some \<lparr>mCipherText = Some [105, 102, 109, 109, 112], mMac = Some [77],
                    mEphemeralKey = Some [7, 9]\<rparr>)
             (one_context (DecCtx \<lparr>toy_key = [7, 9], toy_error = ''SUCCESS''\<rparr>) [] []))))
   \<and> EvFree 7 (Bytes [104, 101, 108, 108, 111])
     \<in> set (during (one_context (DecCtx \<lparr>toy_key = [7, 9], toy_error = ''SUCCESS''\<rparr>) [] [])
          (snd (decryptJni toy_engine 1
             (Some \<lparr>mCipherText = Some [105, 102, 109, 109, 112], mMac = Some [77],
                    mEphemeralKey = Some [7, 9]\<rparr>)
             (one_context (DecCtx \<lparr>toy_key = [7, 9], toy_error = ''SUCCESS''\<rparr>) [] []))))
   \<and> EvFree 3 (Bytes [105, 102, 109, 109, 112, 0])
     \<in> set (during (one_context (DecCtx \<lparr>toy_key = [7, 9], toy_error = ''SUCCESS''\<rparr>) [] [])
          (snd (decryptJni toy_engine 1
             (Some \<lparr>mCipherText = Some [105, 102, 109, 109, 112], mMac = Some [77],
                    mEphemeralKey = Some [7, 9]\<rparr>)
             (one_context (DecCtx \<lparr>toy_key = [7, 9], toy_error = ''SUCCESS''\<rparr>) [] []))))"
proof -
  let ?k = "\<lparr>toy_key = [7, 9], toy_error = ''SUCCESS''\<rparr>"
  let ?s = "one_context (DecCtx ?k) [] []"
  let ?p = "[104, 101, 108, 108, 111] :: byte list"
  let ?ct = "[105, 102, 109, 109, 112] :: byte list"
  let ?m = "\<lparr>mCipherText = Some ?ct, mMac = Some [77], mEphemeralKey = Some [7, 9]\<rparr>"
  have d1: "heap ?s 1 = Some (DecCtx ?k)" by (simp add: toy_defs)
  have d2: "(1::nat) \<noteq> 0" by simp
  have d3: "wf_world ?s" by (simp add: wf_world_def toy_defs)
  have d4: "class_ok ?s" "field_ok ?s ''mCipherText''" "field_ok ?s ''mMac''"
    "field_ok ?s ''mEphemeralKey''"
    by (simp_all add: toy_defs)
  have d5: "mCipherText ?m = Some ?ct" "mMac ?m = Some [77]" "mEphemeralKey ?m = Some [7, 9]"
    by simp_all
  have d6: "allocs_ok 6 ?s" by (simp add: allocs_ok_def toy_defs)
  have d7: "olm_pk_decrypt toy_engine ?k [7, 9] [77] ?ct
              (olm_pk_max_plaintext_length toy_engine ?k (length ?ct))
            = (?k, ?p, Some (5, ?p))"
    by (simp add: toy_defs)
  show ?thesis
    using decrypt_engine_gets_scratch_copy [OF d1 d2 d3 d4 d5 d6 d7]
    by (simp add: toy_defs)
qed

section \<open>Round trip\<close>







section \<open>Release\<close>

text \<open>
  C6, as the code has it. Release with a null handle changes nothing. Release of a live
  context clears it, frees it once, and leaves nothing at its address. The bridge keeps
  no record of which handles are valid. Once the caller holds the null handle, no
  operation frees anything or changes the world: this is so for a further release, for
  set-recipient-key and for encrypt, and generate-key and decrypt throw.
\<close>

theorem release_null_noop_and_frees_once:
  assumes enc: "heap se hen = Some (EncCtx e)" "hen \<noteq> 0"
    and dec: "heap sd hdl = Some (DecCtx d)" "hdl \<noteq> 0"
  shows "releasePkEncryptionJni E 0 w = w \<and> releasePkDecryptionJni E 0 w = w
       \<and> heap (releasePkEncryptionJni E hen se) hen = None
       \<and> during se (releasePkEncryptionJni E hen se)
           = [EvEngine ''olm_clear_pk_encryption'' [hen],
              EvFree hen (EncCtx (olm_clear_pk_encryption E e))]
       \<and> heap (releasePkDecryptionJni E hdl sd) hdl = None
       \<and> during sd (releasePkDecryptionJni E hdl sd)
           = [EvEngine ''olm_clear_pk_decryption'' [hdl],
              EvFree hdl (DecCtx (olm_clear_pk_decryption E d))]
       \<and> snd (setRecipientKeyJni E 0 key w) = w
       \<and> snd (snd (encryptJni E 0 plaintext msg w)) = w
       \<and> generateKeyJni E 0 w
           = (\<lparr>ret = None, exn = Some (Literal ''invalid Decryption ptr=NULL'')\<rparr>, w)
       \<and> decryptJni E 0 msg w
           = (\<lparr>ret = None, exn = Some (Literal ''invalid Decryption ptr=NULL'')\<rparr>, w)"
  using assms
  by (simp add: releasePkEncryptionJni_def releasePkDecryptionJni_def clear_free_encryption_def
        clear_free_decryption_def setRecipientKeyJni_def encryptJni_def generateKeyJni_def
        generateKey_finish_def decryptJni_def decrypt_finish_def during_def prim_defs)

theorem release_null_noop_and_frees_once_witness:
  "heap (releasePkEncryptionJni toy_engine 1
           (one_context (EncCtx \<lparr>toy_key = [7, 9], toy_error = ''SUCCESS''\<rparr>) [] [])) 1 = None
   \<and> heap (releasePkDecryptionJni toy_engine 1
           (one_context (DecCtx \<lparr>toy_key = [7, 9], toy_error = ''SUCCESS''\<rparr>) [] [])) 1 = None
   \<and> releasePkDecryptionJni toy_engine 0 (fresh_world [] []) = fresh_world [] []
   \<and> decryptJni toy_engine 0 None (fresh_world [] [])
       = (\<lparr>ret = None, exn = Some (Literal ''invalid Decryption ptr=NULL'')\<rparr>,
          fresh_world [] [])"
proof -
  let ?k = "\<lparr>toy_key = [7, 9], toy_error = ''SUCCESS''\<rparr>"
  have 1: "heap (one_context (EncCtx ?k) [] []) 1 = Some (EncCtx ?k)" by (simp add: toy_defs)
  have 2: "(1::nat) \<noteq> 0" by simp
  have 3: "heap (one_context (DecCtx ?k) [] []) 1 = Some (DecCtx ?k)" by (simp add: toy_defs)
  show ?thesis
    using release_null_noop_and_frees_once
            [OF 1 2 3 2, of toy_engine "fresh_world [] []" None None None]
    by simp
qed

text \<open>
  C6 as stated fails for a handle that is passed again after its release: the second
  release runs the engine's clear and \<^verbatim>\<open>free\<close> on the address that was already freed.
\<close>

theorem release_twice_is_double_free:
  "trace (releasePkEncryptionJni toy_engine 1
            (releasePkEncryptionJni toy_engine 1
               (one_context (EncCtx \<lparr>toy_key = [], toy_error = ''SUCCESS''\<rparr>) [] [])))
     = [EvEngine ''olm_clear_pk_encryption'' [1],
        EvFree 1 (EncCtx \<lparr>toy_key = [], toy_error = ''SUCCESS''\<rparr>),
        EvFault 1, EvFault 1]"
  by (simp add: releasePkEncryptionJni_def clear_free_encryption_def prim_defs toy_defs)

end
